theory Spec2Isabelle
  imports Main
begin

section \<open>The effect algebra of pure-effect (src/index.js)\<close>

text \<open>
  The library is thirty lines of JavaScript: three constructors of tagged objects,
  \<^verbatim>\<open>chain\<close>, \<^verbatim>\<open>effectPipe\<close> and the interpreter \<^verbatim>\<open>runEffect\<close>.
  JavaScript functions may mutate the world and may throw, so a call is modelled as a
  function from the world before the call to its result and the world after it. The
  result is \<open>Inl\<close> of the thrown value or \<open>Inr\<close> of the returned value. For an
  operation awaited by the interpreter, \<open>Inl\<close> also stands for a rejected promise:
  \<^verbatim>\<open>await\<close> turns both into an exception at the same place.
\<close>

subsection \<open>Values\<close>

text \<open>
  A thrown value is either the \<^verbatim>\<open>TypeError\<close> that the engine raises when a property
  of \<^verbatim>\<open>undefined\<close> is read, or a value of the application.
\<close>

datatype 'e error = TypeError | Err 'e

datatype ('x, 'y) settlement = Never | Rejects 'x | Resolves 'y

type_synonym ('a, 'e, 's) js = "'s \<Rightarrow> ('e error + 'a) \<times> 's"

text \<open>
  \<^verbatim>\<open>
  const Success = (value) => ({ type: 'Success', value });
  const Failure = (error) => ({ type: 'Failure', error });
  const Command = (cmd, next) => ({ type: 'Command', cmd, next });
  \<close>
  The values that \<^verbatim>\<open>chain\<close> and \<^verbatim>\<open>runEffect\<close> can meet are the three tagged
  objects, any other object, and \<^verbatim>\<open>undefined\<close>. Of another object the code reads the
  \<^verbatim>\<open>type\<close> field only, and the promise of the asynchronous interpreter reads its
  \<^verbatim>\<open>then\<close> field when the object is returned. So \<open>Other t th\<close> has the tag \<open>t\<close>
  (\<open>Some\<close> of a string, or \<open>None\<close> when the field is absent or holds no string, as
  in a native promise) and \<open>th\<close>, which is \<open>None\<close> when the object has no callable
  \<^verbatim>\<open>then\<close> and otherwise says how \<^verbatim>\<open>then(resolve, reject)\<close> settles in a world:
  it never calls back, it rejects (or throws) with an error, or it resolves with a
  value. The objects that the three constructors build have no \<^verbatim>\<open>then\<close> field.
  A continuation returns such a value again, and nothing in
  JavaScript bounds the length of a chain of commands (a continuation may return the
  command it belongs to), hence a codatatype. A \<^verbatim>\<open>cmd\<close> or \<^verbatim>\<open>next\<close> field that is
  not callable behaves, where the code calls it, as a function that throws \<open>TypeError\<close>.
  The selectors of the fields \<^verbatim>\<open>value\<close>, \<^verbatim>\<open>next\<close> and \<^verbatim>\<open>then\<close> are \<open>val\<close>,
  \<open>nxt\<close> and \<open>thn\<close>, the three names being keywords here.
\<close>

codatatype ('v, 'e, 's) effect =
    Success (val: 'v)
  | Failure (error: "'e error")
  | Command (cmd: "('v, 'e, 's) js")
            (nxt: "'v \<Rightarrow> 's \<Rightarrow> ('e error + ('v, 'e, 's) effect) \<times> 's")
  | Other (tag: "string option")
          (thn: "('s \<Rightarrow> ('e error, ('v, 'e, 's) effect) settlement \<times> 's) option")
  | Undefined

type_synonym ('v, 'e, 's) step = "'v \<Rightarrow> (('v, 'e, 's) effect, 'e, 's) js"



definition is_outcome :: "('v, 'e, 's) effect \<Rightarrow> bool" where
  "is_outcome effect = (is_Success effect \<or> is_Failure effect)"

text \<open>Sequencing of two calls: the second runs only when the first did not throw.\<close>

definition js_bind :: "('a, 'e, 's) js \<Rightarrow> ('a \<Rightarrow> ('b, 'e, 's) js) \<Rightarrow> ('b, 'e, 's) js" where
  "js_bind m f s = (case m s of (Inl e, s') \<Rightarrow> (Inl e, s') | (Inr a, s') \<Rightarrow> f a s')"

definition js_return :: "'a \<Rightarrow> ('a, 'e, 's) js" where
  "js_return a s = (Inr a, s)"

subsection \<open>chain\<close>

text \<open>
  \<^verbatim>\<open>
  const chain = (effect, fn) => {
      switch (effect.type) {
          case 'Success':
              return fn(effect.value);
          case 'Failure':
              return effect;
          case 'Command':
              const next = (result) => chain(effect.next(result), fn);
              return Command(effect.cmd, next);
      }
  };
  \<close>
  The closure built in the third case calls \<^verbatim>\<open>chain\<close> again only when it is applied;
  \<open>chain_Command\<close> is the object that this case returns, its continuation written with
  the five cases of the inner call of \<^verbatim>\<open>chain\<close> unfolded. The lemma \<open>chain_Command_eq\<close>
  gives it back in the form of the source.
\<close>

primcorec chain_Command :: "('v, 'e, 's) step \<Rightarrow> ('v, 'e, 's) effect \<Rightarrow> ('v, 'e, 's) effect" where
  "chain_Command fn effect =
     Command (cmd effect)
       (\<lambda>result s.
          case nxt effect result s of
            (Inl e, s') \<Rightarrow> (Inl e, s')
          | (Inr effect', s') \<Rightarrow>
              (case effect' of
                 Success v \<Rightarrow> fn v s'
               | Failure e \<Rightarrow> (Inr effect', s')
               | Command c n \<Rightarrow> (Inr (chain_Command fn effect'), s')
               | Other t th \<Rightarrow> (Inr Undefined, s')
               | Undefined \<Rightarrow> (Inl TypeError, s')))"

definition chain :: "('v, 'e, 's) effect \<Rightarrow> ('v, 'e, 's) step \<Rightarrow> (('v, 'e, 's) effect, 'e, 's) js" where
  "chain effect fn s =
     (case effect of
        Success v \<Rightarrow> fn v s
      | Failure e \<Rightarrow> (Inr effect, s)
      | Command c n \<Rightarrow> (Inr (chain_Command fn effect), s)
      | Other t th \<Rightarrow> (Inr Undefined, s)
      | Undefined \<Rightarrow> (Inl TypeError, s))"

subsection \<open>effectPipe\<close>

text \<open>
  \<^verbatim>\<open>
  const effectPipe = (...fns) => {
      return (start) => fns.reduce(chain, Success(start));
  };
  \<close>
  \<open>reduce\<close> is \<^verbatim>\<open>Array.prototype.reduce\<close> with an initial value: it calls the callback
  on the accumulator and each element from left to right, and an exception of the
  callback ends it.
\<close>

fun reduce :: "('a \<Rightarrow> 'b \<Rightarrow> ('a, 'e, 's) js) \<Rightarrow> 'b list \<Rightarrow> 'a \<Rightarrow> ('a, 'e, 's) js" where
  "reduce f [] acc s = (Inr acc, s)"
| "reduce f (x # xs) acc s =
     (case f acc x s of
        (Inl e, s') \<Rightarrow> (Inl e, s')
      | (Inr acc', s') \<Rightarrow> reduce f xs acc' s')"

definition effectPipe :: "('v, 'e, 's) step list \<Rightarrow> 'v \<Rightarrow> (('v, 'e, 's) effect, 'e, 's) js" where
  "effectPipe fns start = reduce chain fns (Success start)"

subsection \<open>runEffect\<close>

text \<open>
  \<^verbatim>\<open>
  async function runEffect(effect) {
      while (effect.type === 'Command') {
          try {
              effect = effect.next(await effect.cmd());
          } catch (e) {
              return Failure(e);
          }
      }
      return effect;
  }
  \<close>
  The function is asynchronous: what it returns is a promise, and \<^verbatim>\<open>return v\<close>
  resolves that promise with \<open>v\<close>. \<open>async_return\<close> is that resolution. A value
  without a callable \<^verbatim>\<open>then\<close> fulfils the promise. A thenable is adopted: the promise
  stays pending when \<^verbatim>\<open>then\<close> never calls back, is rejected with what it rejects or
  throws, and is resolved in turn with the value it resolves with, which may be a
  thenable again. \<open>Some (Inr v, s)\<close> is a promise fulfilled with \<open>v\<close> in world \<open>s\<close>,
  \<open>Some (Inl e, s)\<close> a promise rejected with \<open>e\<close>, and \<open>None\<close> a promise that never
  settles.
\<close>

partial_function (option) async_return ::
  "('v, 'e, 's) effect \<Rightarrow> 's \<Rightarrow> (('e error + ('v, 'e, 's) effect) \<times> 's) option" where
  "async_return v s =
     (case v of
        Other t th \<Rightarrow>
          (case th of
             None \<Rightarrow> Some (Inr v, s)
           | Some then_method \<Rightarrow>
               (case then_method s of
                  (Never, s') \<Rightarrow> None
                | (Rejects e, s') \<Rightarrow> Some (Inl e, s')
                | (Resolves y, s') \<Rightarrow> async_return y s'))
      | _ \<Rightarrow> Some (Inr v, s))"

text \<open>
  The loop may run forever, so for the interpreter too \<open>None\<close> is a promise that never
  settles. Its promise is rejected when the loop condition reads
  \<^verbatim>\<open>undefined.type\<close>, outside the \<^verbatim>\<open>try\<close> block. The value of
  \<^verbatim>\<open>return Failure(e)\<close> is an object that the constructor built, so it fulfils the
  promise. The model follows one invocation of the interpreter; what other tasks do to
  the world while it awaits is not part of it.
\<close>

partial_function (option) runEffect ::
  "('v, 'e, 's) effect \<Rightarrow> 's \<Rightarrow> (('e error + ('v, 'e, 's) effect) \<times> 's) option" where
  "runEffect effect s =
     (case effect of
        Command c n \<Rightarrow>
          (case c s of
             (Inl e, s') \<Rightarrow> Some (Inr (Failure e), s')
           | (Inr result, s') \<Rightarrow>
               (case n result s' of
                  (Inl e, s'') \<Rightarrow> Some (Inr (Failure e), s'')
                | (Inr effect', s'') \<Rightarrow> runEffect effect' s''))
      | Undefined \<Rightarrow> Some (Inl TypeError, s)
      | _ \<Rightarrow> async_return effect s)"

subsection \<open>Effects of the data model\<close>

text \<open>
  The data model of the specification has three variants, and a continuation must return
  one of them again. \<open>well_formed\<close> says so for an effect and for everything its
  continuations can return, however long the chain (hence coinductive). \<open>finite_chain\<close>
  says that the chain of commands ends, whatever the operations return: every path
  through the continuations reaches a value that is not a command.
\<close>

coinductive well_formed :: "('v, 'e, 's) effect \<Rightarrow> bool" where
  wf_Success: "well_formed (Success v)"
| wf_Failure: "well_formed (Failure e)"
| wf_Command: "(\<And>result s effect' s'. n result s = (Inr effect', s') \<Longrightarrow> well_formed effect')
     \<Longrightarrow> well_formed (Command c n)"

inductive finite_chain :: "('v, 'e, 's) effect \<Rightarrow> bool" where
  fin_end: "\<not> is_Command effect \<Longrightarrow> finite_chain effect"
| fin_Command: "(\<And>result s effect' s'. n result s = (Inr effect', s') \<Longrightarrow> finite_chain effect')
     \<Longrightarrow> finite_chain (Command c n)"

text \<open>
  A command that never ends: its continuation returns the command again, as
  \<^verbatim>\<open>const loop = Command(op, () => loop)\<close> does.
\<close>

primcorec forever :: "('v, 'e, 's) js \<Rightarrow> ('v, 'e, 's) effect" where
  "forever c = Command c (\<lambda>result s. (Inr (forever c), s))"

subsection \<open>The pipeline as the specification words it\<close>

text \<open>
  Section 4.2 of the specification: the pipeline "folds: begin with Outcome-Success(start),
  and for each step in order, accumulated = Chain(accumulated, step)". \<open>Pipeline\<close> is
  that left fold, over computations that may have thrown; it is compared with
  \<open>effectPipe\<close>, which is the code.
\<close>

definition Pipeline :: "('v, 'e, 's) step list \<Rightarrow> 'v \<Rightarrow> (('v, 'e, 's) effect, 'e, 's) js" where
  "Pipeline steps start =
     foldl (\<lambda>accumulated step. js_bind accumulated (\<lambda>effect. chain effect step))
       (js_return (Success start)) steps"

text \<open>
  A step that only returns successes is given by the value it computes and the world it
  leaves. \<open>thread\<close> passes a value through such computations, each receiving the value
  the one before it returned.
\<close>

definition succeed :: "('v \<Rightarrow> 's \<Rightarrow> 'v \<times> 's) \<Rightarrow> ('v, 'e, 's) step" where
  "succeed g v s = (case g v s of (v', s') \<Rightarrow> (Inr (Success v'), s'))"

fun thread :: "('v \<Rightarrow> 's \<Rightarrow> 'v \<times> 's) list \<Rightarrow> 'v \<Rightarrow> 's \<Rightarrow> 'v \<times> 's" where
  "thread [] v s = (v, s)"
| "thread (g # gs) v s = (case g v s of (v', s') \<Rightarrow> thread gs v' s')"

subsection \<open>Counting iterations and invocations\<close>

text \<open>
  \<open>runEffect_iterations\<close> is the loop of \<open>runEffect\<close> with one addition: a counter of
  the iterations of the \<^verbatim>\<open>while\<close> loop that have been entered, returned with the
  result.
\<close>

partial_function (option) runEffect_iterations ::
  "('v, 'e, 's) effect \<Rightarrow> 's \<Rightarrow> nat \<Rightarrow> (('e error + ('v, 'e, 's) effect) \<times> 's \<times> nat) option" where
  "runEffect_iterations effect s k =
     (case effect of
        Command c n \<Rightarrow>
          (case c s of
             (Inl e, s') \<Rightarrow> Some (Inr (Failure e), s', Suc k)
           | (Inr result, s') \<Rightarrow>
               (case n result s' of
                  (Inl e, s'') \<Rightarrow> Some (Inr (Failure e), s'', Suc k)
                | (Inr effect', s'') \<Rightarrow> runEffect_iterations effect' s'' (Suc k)))
      | Undefined \<Rightarrow> Some (Inl TypeError, s, k)
      | _ \<Rightarrow> map_option (\<lambda>(r, s'). (r, s', k)) (async_return effect s))"

text \<open>
  The commands that were executed are observed the way a test observes them, with a spy:
  \<open>spied count effect\<close> holds when \<open>effect\<close> is a finite chain of the data model in
  which every operation, each time it is invoked, adds one to the counter \<open>count\<close> of
  the world, and no continuation changes that counter.
\<close>

inductive spied :: "('s \<Rightarrow> nat) \<Rightarrow> ('v, 'e, 's) effect \<Rightarrow> bool" for count :: "'s \<Rightarrow> nat" where
  spied_Success: "spied count (Success v)"
| spied_Failure: "spied count (Failure e)"
| spied_Command: "(\<And>s. count (snd (c s)) = Suc (count s)) \<Longrightarrow>
     (\<And>result s. count (snd (n result s)) = count s) \<Longrightarrow>
     (\<And>result s effect' s'. n result s = (Inr effect', s') \<Longrightarrow> spied count effect') \<Longrightarrow>
     spied count (Command c n)"

subsection \<open>Fixtures\<close>

text \<open>
  Concrete effects for the examples. The world is a number that every operation
  increases by one when it is invoked, as a spy in a test would count calls; values
  and errors are strings.
\<close>

definition resolves :: "string \<Rightarrow> (string, string, nat) js" where
  "resolves r k = (Inr r, Suc k)"

definition rejects :: "string \<Rightarrow> (string, string, nat) js" where
  "rejects e k = (Inl (Err e), Suc k)"

definition two_commands :: "(string, string, nat) effect" where
  "two_commands =
     Command (resolves ''a'')
       (\<lambda>r k. (Inr (Command (resolves ''b'') (\<lambda>r' k'. (Inr (Success (r @ r')), k'))), k))"

definition spy :: "(string, string, nat) step" where
  "spy v k = (Inr (Success v), k + 100)"


definition then_resolves ::
  "(string, string, nat) effect \<Rightarrow> nat \<Rightarrow>
     (string error, (string, string, nat) effect) settlement \<times> nat" where
  "then_resolves y k = (Resolves y, k)"


definition promise_of_commands :: "(string, string, nat) effect" where
  "promise_of_commands = Other None (Some (then_resolves two_commands))"


subsection \<open>The registration flow of the tests\<close>

text \<open>
  The test file of the repository builds a registration flow on an in-memory database
  and runs it: \<^verbatim>\<open>validateRegistration\<close>, \<^verbatim>\<open>findUserByEmail\<close>,
  \<^verbatim>\<open>ensureEmailIsAvailable\<close>, \<^verbatim>\<open>saveUser\<close>, \<^verbatim>\<open>registerUserFlow\<close> and
  \<^verbatim>\<open>registerUser\<close>. The values that flow through it are users, \<^verbatim>\<open>null\<close> and
  \<^verbatim>\<open>true\<close>; the world is the map \<^verbatim>\<open>db.users\<close> and the clock that
  \<^verbatim>\<open>Date.now()\<close> reads.
  \<^verbatim>\<open>
  const db = {
      users: new Map(),
      async findUserByEmail(email) { return this.users.get(email) || null; },
      async saveUser(user) {
          const u = { ...user, id: Date.now() };
          this.users.set(user.email, u);
          return u;
      },
  };
  \<close>
\<close>

record user =
  email :: string
  password :: string
  user_id :: "nat option"

datatype val = VNull | VBool bool | VUser user

record db =
  users :: "string \<rightharpoonup> user"
  now :: nat

fun truthy :: "val \<Rightarrow> bool" where
  "truthy VNull = False"
| "truthy (VBool b) = b"
| "truthy (VUser u) = True"

definition db_findUserByEmail :: "string \<Rightarrow> (val, string, db) js" where
  "db_findUserByEmail em s = (Inr (case users s em of None \<Rightarrow> VNull | Some u \<Rightarrow> VUser u), s)"

definition db_saveUser :: "user \<Rightarrow> (val, string, db) js" where
  "db_saveUser usr s =
     (let u = usr\<lparr>user_id := Some (now s)\<rparr>
      in (Inr (VUser u), s\<lparr>users := (users s)(email usr \<mapsto> u)\<rparr>))"

text \<open>
  \<^verbatim>\<open>
  function validateRegistration(input) {
      const { email, password } = input;
      if (!email?.includes('@')) { return Failure('Invalid email format.'); }
      if (password?.length < 8) {
          return Failure('Password must be at least 8 characters long.');
      }
      return Success(input);
  }
  \<close>
  Destructuring \<^verbatim>\<open>null\<close> throws; a boolean has no \<^verbatim>\<open>email\<close>, so the first test
  fails for it.
\<close>

definition validateRegistration :: "(val, string, db) step" where
  "validateRegistration input s =
     (case input of
        VNull \<Rightarrow> (Inl TypeError, s)
      | VBool b \<Rightarrow> (Inr (Failure (Err ''Invalid email format.'')), s)
      | VUser u \<Rightarrow>
          if CHR ''@'' \<notin> set (email u) then
            (Inr (Failure (Err ''Invalid email format.'')), s)
          else if length (password u) < 8 then
            (Inr (Failure (Err ''Password must be at least 8 characters long.'')), s)
          else (Inr (Success input), s))"

text \<open>
  \<^verbatim>\<open>
  function findUserByEmail(email) {
      const cmdFindUser = () => db.findUserByEmail(email);
      const next = (foundUser) => Success(foundUser);
      return Command(cmdFindUser, next);
  }
  function ensureEmailIsAvailable(foundUser) {
      return foundUser ? Failure('Email already in use.') : Success(true);
  }
  function saveUser(input) {
      const { email, password } = input;
      const hashedPassword = `hashed_${password}`;
      const userToSave = { email, password: hashedPassword };
      const cmdSaveUser = () => db.saveUser(userToSave);
      const next = (savedUser) => Success(savedUser);
      return Command(cmdSaveUser, next);
  }
  \<close>
\<close>

definition findUserByEmail :: "string \<Rightarrow> (val, string, db) effect" where
  "findUserByEmail em =
     Command (db_findUserByEmail em) (\<lambda>foundUser s. (Inr (Success foundUser), s))"

definition ensureEmailIsAvailable :: "(val, string, db) step" where
  "ensureEmailIsAvailable foundUser s =
     (if truthy foundUser then (Inr (Failure (Err ''Email already in use.'')), s)
      else (Inr (Success (VBool True)), s))"

definition saveUser :: "user \<Rightarrow> (val, string, db) effect" where
  "saveUser input =
     Command (db_saveUser \<lparr>email = email input, password = ''hashed_'' @ password input,
                           user_id = None\<rparr>)
       (\<lambda>savedUser s. (Inr (Success savedUser), s))"

text \<open>
  \<^verbatim>\<open>
  const registerUserFlow = (input) =>
      effectPipe(
          validateRegistration,
          () => findUserByEmail(input.email),
          ensureEmailIsAvailable,
          () => saveUser(input)
      )(input);

  async function registerUser(input) {
      return await runEffect(registerUserFlow(input));
  }
  \<close>
\<close>

definition registerUserFlow :: "user \<Rightarrow> ((val, string, db) effect, string, db) js" where
  "registerUserFlow input =
     effectPipe
       [validateRegistration,
        \<lambda>_ s. (Inr (findUserByEmail (email input)), s),
        ensureEmailIsAvailable,
        \<lambda>_ s. (Inr (saveUser input), s)]
       (VUser input)"

definition registerUser ::
  "user \<Rightarrow> db \<Rightarrow> ((string error + (val, string, db) effect) \<times> db) option" where
  "registerUser input s =
     (case registerUserFlow input s of
        (Inl e, s') \<Rightarrow> Some (Inl e, s')
      | (Inr effect, s') \<Rightarrow> runEffect effect s')"

text \<open>The inputs of the two tests, an empty database, and one where the address is
  taken.\<close>

definition bad_input :: user where
  "bad_input = \<lparr>email = ''bad-email'', password = ''123'', user_id = None\<rparr>"

definition good_input :: user where
  "good_input = \<lparr>email = ''test@test.com'', password = ''password123'', user_id = None\<rparr>"

definition empty_db :: db where
  "empty_db = \<lparr>users = Map.empty, now = 7\<rparr>"

definition registered :: user where
  "registered = \<lparr>email = ''test@test.com'', password = ''hashed_password123'', user_id = Some 7\<rparr>"

definition taken_db :: db where
  "taken_db = \<lparr>users = [''test@test.com'' \<mapsto> registered], now = 8\<rparr>"

section \<open>Basic facts\<close>

subsection \<open>Sequencing\<close>

lemma js_bind_return: "js_bind m js_return = m"
  by (auto simp: js_bind_def js_return_def fun_eq_iff split: prod.splits sum.splits)

lemma js_return_bind: "js_bind (js_return a) f = f a"
  by (simp add: js_bind_def js_return_def fun_eq_iff)

lemma js_bind_assoc: "js_bind (js_bind m f) g = js_bind m (\<lambda>a. js_bind (f a) g)"
  by (auto simp: js_bind_def fun_eq_iff split: prod.splits sum.splits)

lemma reduce_Nil: "reduce f [] = js_return"
  by (simp add: fun_eq_iff js_return_def)

lemma reduce_Cons: "reduce f (x # xs) acc = js_bind (f acc x) (reduce f xs)"
  by (simp add: fun_eq_iff js_bind_def)

subsection \<open>The cases of chain\<close>

lemma chain_simps:
  "chain (Success v) fn s = fn v s"
  "chain (Failure e) fn s = (Inr (Failure e), s)"
  "chain (Other t th) fn s = (Inr Undefined, s)"
  "chain Undefined fn s = (Inl TypeError, s)"
  by (simp_all add: chain_def)

text \<open>The third case, as the source has it: the new continuation is
  \<^verbatim>\<open>(result) => chain(effect.next(result), fn)\<close>.\<close>

lemma chain_Command_unfold:
  "chain_Command fn effect =
     Command (cmd effect) (\<lambda>result. js_bind (nxt effect result) (\<lambda>effect'. chain effect' fn))"
  by (subst chain_Command.code)
     (auto simp: js_bind_def chain_def fun_eq_iff split: prod.splits sum.splits effect.splits)

lemma chain_Command_sel:
  "is_Command (chain_Command fn effect)"
  "\<not> is_Success (chain_Command fn effect)"
  "\<not> is_Failure (chain_Command fn effect)"
  "\<not> is_Other (chain_Command fn effect)"
  "cmd (chain_Command fn effect) = cmd effect"
  "nxt (chain_Command fn effect) result = js_bind (nxt effect result) (\<lambda>effect'. chain effect' fn)"
  by (simp_all add: chain_Command_unfold [of fn effect])

lemma chain_is_Command:
  "is_Command effect \<Longrightarrow> chain effect fn s = (Inr (chain_Command fn effect), s)"
  by (cases effect) (simp_all add: chain_def)

lemma chain_Command_eq:
  "chain (Command c n) fn s =
     (Inr (Command c (\<lambda>result. js_bind (n result) (\<lambda>effect'. chain effect' fn))), s)"
  by (simp add: chain_is_Command chain_Command_unfold [of fn "Command c n"])

subsection \<open>The cases of the interpreter\<close>

lemma async_return_simps:
  "async_return (Success v) s = Some (Inr (Success v), s)"
  "async_return (Failure e) s = Some (Inr (Failure e), s)"
  "async_return (Command c n) s = Some (Inr (Command c n), s)"
  "async_return (Other t None) s = Some (Inr (Other t None), s)"
  "async_return Undefined s = Some (Inr Undefined, s)"
  by (simp_all add: async_return.simps)

lemma async_return_thenable:
  "async_return (Other t (Some th)) s =
     (case th s of
        (Never, s') \<Rightarrow> None
      | (Rejects e, s') \<Rightarrow> Some (Inl e, s')
      | (Resolves y, s') \<Rightarrow> async_return y s')"
  by (subst async_return.simps) simp

lemma runEffect_simps:
  "runEffect (Success v) s = Some (Inr (Success v), s)"
  "runEffect (Failure e) s = Some (Inr (Failure e), s)"
  "runEffect (Other t None) s = Some (Inr (Other t None), s)"
  "runEffect Undefined s = Some (Inl TypeError, s)"
  by (simp_all add: runEffect.simps async_return_simps)

lemma runEffect_Other: "runEffect (Other t th) s = async_return (Other t th) s"
  by (subst runEffect.simps) simp

lemma runEffect_Command:
  "runEffect (Command c n) s =
     (case c s of
        (Inl e, s') \<Rightarrow> Some (Inr (Failure e), s')
      | (Inr result, s') \<Rightarrow>
          (case n result s' of
             (Inl e, s'') \<Rightarrow> Some (Inr (Failure e), s'')
           | (Inr effect', s'') \<Rightarrow> runEffect effect' s''))"
  by (subst runEffect.simps) simp

lemma runEffect_iterations_simps:
  "runEffect_iterations (Success v) s k = Some (Inr (Success v), s, k)"
  "runEffect_iterations (Failure e) s k = Some (Inr (Failure e), s, k)"
  "runEffect_iterations (Other t None) s k = Some (Inr (Other t None), s, k)"
  "runEffect_iterations Undefined s k = Some (Inl TypeError, s, k)"
  by (simp_all add: runEffect_iterations.simps async_return_simps)

lemma runEffect_iterations_Command:
  "runEffect_iterations (Command c n) s k =
     (case c s of
        (Inl e, s') \<Rightarrow> Some (Inr (Failure e), s', Suc k)
      | (Inr result, s') \<Rightarrow>
          (case n result s' of
             (Inl e, s'') \<Rightarrow> Some (Inr (Failure e), s'', Suc k)
           | (Inr effect', s'') \<Rightarrow> runEffect_iterations effect' s'' (Suc k)))"
  by (subst runEffect_iterations.simps) simp

text \<open>One iteration of the loop on a command ends in one of three ways.\<close>

lemma iteration_cases:
  obtains
    (operation_throws) e s1 where
      "c s = (Inl e, s1)"
      "runEffect (Command c n) s = Some (Inr (Failure e), s1)"
  | (continuation_throws) result s1 e s2 where
      "c s = (Inr result, s1)" "n result s1 = (Inl e, s2)"
      "runEffect (Command c n) s = Some (Inr (Failure e), s2)"
  | (continues) result s1 effect' s2 where
      "c s = (Inr result, s1)" "n result s1 = (Inr effect', s2)"
      "runEffect (Command c n) s = runEffect effect' s2"
proof (cases "c s")
  case (Pair a s1)
  show ?thesis
  proof (cases a)
    case (Inl e)
    with Pair show ?thesis
      by (intro operation_throws [of e s1]) (simp_all add: runEffect_Command)
  next
    case (Inr result)
    show ?thesis
    proof (cases "n result s1")
      case after: (Pair b s2)
      show ?thesis
      proof (cases b)
        case (Inl e)
        with Pair Inr after show ?thesis
          by (intro continuation_throws [of result s1 e s2]) (simp_all add: runEffect_Command)
      next
        case continue: (Inr effect')
        with Pair Inr after show ?thesis
          by (intro continues [of result s1 effect' s2]) (simp_all add: runEffect_Command)
      qed
    qed
  qed
qed

text \<open>The loop with the counter takes the same way and counts the iteration.\<close>

lemma counted_iteration_cases:
  obtains
    (operation_throws) e s1 where
      "c s = (Inl e, s1)"
      "runEffect (Command c n) s = Some (Inr (Failure e), s1)"
      "\<And>k. runEffect_iterations (Command c n) s k = Some (Inr (Failure e), s1, Suc k)"
  | (continuation_throws) result s1 e s2 where
      "c s = (Inr result, s1)" "n result s1 = (Inl e, s2)"
      "runEffect (Command c n) s = Some (Inr (Failure e), s2)"
      "\<And>k. runEffect_iterations (Command c n) s k = Some (Inr (Failure e), s2, Suc k)"
  | (continues) result s1 effect' s2 where
      "c s = (Inr result, s1)" "n result s1 = (Inr effect', s2)"
      "runEffect (Command c n) s = runEffect effect' s2"
      "\<And>k. runEffect_iterations (Command c n) s k = runEffect_iterations effect' s2 (Suc k)"
proof (cases rule: iteration_cases [of c s n])
  case (operation_throws e s1)
  then show ?thesis
    by (intro that(1) [of e s1]) (simp_all add: runEffect_iterations_Command)
next
  case (continuation_throws result s1 e s2)
  then show ?thesis
    by (intro that(2) [of result s1 e s2]) (simp_all add: runEffect_iterations_Command)
next
  case (continues result s1 effect' s2)
  then show ?thesis
    by (intro that(3) [of result s1 effect' s2]) (simp_all add: runEffect_iterations_Command)
qed

subsection \<open>Effects of the data model\<close>

lemma well_formed_outcome: "well_formed effect \<Longrightarrow> \<not> is_Command effect \<Longrightarrow> is_outcome effect"
  by (erule well_formed.cases) (simp_all add: is_outcome_def)

lemma well_formed_next:
  "well_formed (Command c n) \<Longrightarrow> n result s = (Inr effect', s') \<Longrightarrow> well_formed effect'"
  by (erule well_formed.cases) auto

section \<open>Chain\<close>

lemma reduce_chain_Command:
  "\<exists>n'. reduce chain fns (Command c n) s = (Inr (Command c n'), s)"
proof (induction fns arbitrary: n)
  case Nil
  show ?case by simp
next
  case (Cons fn fns)
  show ?case by (simp add: chain_Command_eq Cons.IH)
qed

lemma reduce_append: "reduce f (xs @ ys) acc s = js_bind (reduce f xs acc) (reduce f ys) s"
  by (induction xs arbitrary: acc s) (auto simp: js_bind_def split: prod.splits sum.splits)

text \<open>
  Claim C6. Chain applied to a command \<open>Command c n\<close> and a function \<open>fn\<close> returns a
  new command with the same operation \<open>c\<close> and the continuation that sends a result to
  \<open>chain (n result) fn\<close>. It returns the world as it found it and throws nothing,
  whatever \<open>c\<close> would do to the world: the operation is not invoked. The same holds for
  the fold of the pipeline over any steps once the accumulator is a command, and so a
  pipeline whose first steps have produced a command returns, with any later steps
  added, a command with that operation and the same world. The operation is applied by
  the interpreter only.
\<close>

theorem chain_defers_operation:
  "chain (Command c n) fn s =
     (Inr (Command c (\<lambda>result. js_bind (n result) (\<lambda>effect'. chain effect' fn))), s) \<and>
   (\<exists>n'. reduce chain fns (Command c n) s = (Inr (Command c n'), s)) \<and>
   (effectPipe fns start s = (Inr (Command c n), s') \<longrightarrow>
      (\<exists>n'. effectPipe (fns @ later) start s = (Inr (Command c n'), s')))"
proof (intro conjI impI)
  show "chain (Command c n) fn s =
     (Inr (Command c (\<lambda>result. js_bind (n result) (\<lambda>effect'. chain effect' fn))), s)"
    by (rule chain_Command_eq)
  show "\<exists>n'. reduce chain fns (Command c n) s = (Inr (Command c n'), s)"
    by (rule reduce_chain_Command)
next
  assume "effectPipe fns start s = (Inr (Command c n), s')"
  then have "effectPipe (fns @ later) start s = reduce chain later (Command c n) s'"
    by (simp add: effectPipe_def reduce_append js_bind_def)
  with reduce_chain_Command [of later c n s']
  show "\<exists>n'. effectPipe (fns @ later) start s = (Inr (Command c n'), s')"
    by simp
qed

theorem chain_defers_operation_witness:
  "effectPipe [validateRegistration, \<lambda>_ s. (Inr (findUserByEmail ''test@test.com''), s)]
     (VUser good_input) empty_db
     = (Inr (Command (db_findUserByEmail ''test@test.com'')
               (\<lambda>foundUser s. (Inr (Success foundUser), s))), empty_db) \<and>
   (\<exists>n'. effectPipe
            ([validateRegistration, \<lambda>_ s. (Inr (findUserByEmail ''test@test.com''), s)] @
             [ensureEmailIsAvailable, \<lambda>_ s. (Inr (saveUser good_input), s)])
            (VUser good_input) empty_db
          = (Inr (Command (db_findUserByEmail ''test@test.com'') n'), empty_db))"
proof -
  have first: "effectPipe [validateRegistration, \<lambda>_ s. (Inr (findUserByEmail ''test@test.com''), s)]
     (VUser good_input) empty_db
     = (Inr (Command (db_findUserByEmail ''test@test.com'')
               (\<lambda>foundUser s. (Inr (Success foundUser), s))), empty_db)"
    by (simp add: effectPipe_def chain_simps validateRegistration_def good_input_def
          findUserByEmail_def)
  from first chain_defers_operation
    [THEN conjunct2, THEN conjunct2, THEN mp, OF first,
     of "[ensureEmailIsAvailable, \<lambda>_ s. (Inr (saveUser good_input), s)]"]
  show ?thesis
    by (rule conjI)
qed

lemma chain_Command_associative:
  "well_formed e0 \<Longrightarrow> is_Command e0 \<Longrightarrow>
   chain_Command g (chain_Command f e0) =
   chain_Command (\<lambda>x. js_bind (f x) (\<lambda>effect'. chain effect' g)) e0"
proof (coinduction arbitrary: e0 rule: effect.coinduct_strong)
  case Eq_effect
  let ?h = "\<lambda>x. js_bind (f x) (\<lambda>effect'. chain effect' g)"
  let ?R = "\<lambda>a b. (\<exists>e'. a = chain_Command g (chain_Command f e') \<and>
            b = chain_Command ?h e' \<and> well_formed e' \<and> is_Command e') \<or> a = b"
  have "rel_prod (rel_sum (=) ?R) (=)
          (js_bind (js_bind (nxt e0 result) (\<lambda>effect'. chain effect' f))
             (\<lambda>effect'. chain effect' g) s)
          (js_bind (nxt e0 result) (\<lambda>effect'. chain effect' ?h) s)"
    for result s
  proof (cases "nxt e0 result s")
    case (Pair a s1)
    show ?thesis
    proof (cases a)
      case (Inl e)
      with Pair show ?thesis
        by (simp add: js_bind_def)
    next
      case (Inr effect')
      have wf: "well_formed effect'"
        using Eq_effect Pair Inr by (cases e0) (auto dest: well_formed_next)
      then show ?thesis
      proof (cases rule: well_formed.cases)
        case (wf_Success v)
        with Pair Inr show ?thesis
          by (simp add: js_bind_def chain_simps prod.rel_refl sum.rel_refl)
      next
        case (wf_Failure e)
        with Pair Inr show ?thesis
          by (simp add: js_bind_def chain_simps)
      next
        case (wf_Command n c)
        with Pair Inr wf show ?thesis
          by (auto simp add: js_bind_def chain_is_Command)
      qed
    qed
  qed
  then show ?case
    by (simp add: rel_fun_def chain_Command_sel del: chain_Command.sel)
qed

text \<open>
  Claim C7. For every effect \<open>effect\<close> of the data model and all functions \<open>f\<close> and
  \<open>g\<close>, chaining \<open>f\<close> and then \<open>g\<close> gives the same result, thrown value and world as
  chaining the function that sends \<open>x\<close> to \<open>chain (f x) g\<close>. For a command the two
  results are equal objects: the same operation, and continuations that agree on every
  result and world, along the whole chain, finite or not.
\<close>

theorem chain_associative:
  assumes "well_formed effect"
  shows "js_bind (chain effect f) (\<lambda>effect'. chain effect' g) =
         chain effect (\<lambda>x. js_bind (f x) (\<lambda>effect'. chain effect' g))"
  using assms
proof (cases rule: well_formed.cases)
  case (wf_Success v)
  then show ?thesis
    by (simp add: fun_eq_iff chain_simps js_bind_def)
next
  case (wf_Failure e)
  then show ?thesis
    by (simp add: fun_eq_iff chain_simps js_bind_def)
next
  case (wf_Command n c)
  with assms chain_Command_associative [of effect g f] show ?thesis
    by (simp add: fun_eq_iff js_bind_def chain_is_Command)
qed

lemma well_formed_findUserByEmail: "well_formed (findUserByEmail em)"
  unfolding findUserByEmail_def by (rule wf_Command) (auto intro: wf_Success)

lemma finite_chain_findUserByEmail: "finite_chain (findUserByEmail em)"
  unfolding findUserByEmail_def by (rule fin_Command) (auto intro: fin_end)

theorem chain_associative_witness:
  "well_formed (findUserByEmail ''test@test.com'') \<and>
   js_bind (chain (findUserByEmail ''test@test.com'') ensureEmailIsAvailable)
     (\<lambda>effect'. chain effect' (\<lambda>_ s. (Inr (saveUser good_input), s))) =
   chain (findUserByEmail ''test@test.com'')
     (\<lambda>x. js_bind (ensureEmailIsAvailable x)
        (\<lambda>effect'. chain effect' (\<lambda>_ s. (Inr (saveUser good_input), s))))"
  using well_formed_findUserByEmail [of "''test@test.com''"]
    chain_associative [OF well_formed_findUserByEmail [of "''test@test.com''"],
      of ensureEmailIsAvailable "\<lambda>_ s. (Inr (saveUser good_input), s)"]
  by (rule conjI)

text \<open>
  Outside the data model the law fails: for an object with another tag the left side
  reads \<^verbatim>\<open>undefined.type\<close> and throws, the right side returns \<^verbatim>\<open>undefined\<close>.
\<close>

lemma chain_Other_not_associative:
  "js_bind (chain (Other t th) f) (\<lambda>effect'. chain effect' g) s = (Inl TypeError, s)"
  "chain (Other t th) (\<lambda>x. js_bind (f x) (\<lambda>effect'. chain effect' g)) s = (Inr Undefined, s)"
  by (simp_all add: js_bind_def chain_simps)

section \<open>Pipeline\<close>

lemma foldl_chain_reduce:
  "foldl (\<lambda>accumulated step. js_bind accumulated (\<lambda>effect. chain effect step)) m fns
     = js_bind m (reduce chain fns)"
proof (induction fns arbitrary: m)
  case Nil
  show ?case by (simp add: reduce_Nil js_bind_return)
next
  case (Cons fn fns)
  show ?case by (simp add: Cons.IH js_bind_assoc reduce_Cons)
qed

text \<open>
  Claim C5. For every list of steps and every start value, \<open>effectPipe\<close> is the left
  fold that begins with \<open>Success start\<close> and replaces the accumulator, for each step
  in order, with the chain of the accumulator and the step.
\<close>

theorem effectPipe_is_left_fold: "effectPipe fns start = Pipeline fns start"
  by (simp add: effectPipe_def Pipeline_def foldl_chain_reduce js_return_bind)

text \<open>
  Claim C4. When the first of three steps returns \<open>Failure e\<close> on the start value, the
  pipeline returns \<open>Failure e\<close> and the world that the first step left, whatever the
  second and third steps are: they are not invoked. In general chain applied to
  \<open>Failure e\<close> returns it and the world unchanged, whatever the function is.
\<close>

theorem effectPipe_short_circuit:
  "(s1 start s = (Inr (Failure e), s') \<longrightarrow>
      effectPipe [s1, s2, s3] start s = (Inr (Failure e), s')) \<and>
   chain (Failure e) fn s = (Inr (Failure e), s)"
  by (simp add: effectPipe_def chain_simps)

theorem effectPipe_short_circuit_witness:
  "validateRegistration (VUser bad_input) empty_db
     = (Inr (Failure (Err ''Invalid email format.'')), empty_db) \<and>
   effectPipe
     [validateRegistration, \<lambda>_ s. (Inr (findUserByEmail ''bad-email''), s\<lparr>now := 0\<rparr>),
      \<lambda>_ s. (Inl TypeError, s)]
     (VUser bad_input) empty_db
     = (Inr (Failure (Err ''Invalid email format.'')), empty_db)"
  using effectPipe_short_circuit
    [of validateRegistration "VUser bad_input" empty_db "Err ''Invalid email format.''" empty_db
        "\<lambda>_ s. (Inr (findUserByEmail ''bad-email''), s\<lparr>now := 0\<rparr>)"
        "\<lambda>_ s. (Inl TypeError, s)" validateRegistration]
  by (simp add: validateRegistration_def bad_input_def)

lemma succeed_Success: "g v s = (v', s') \<Longrightarrow> succeed g v s = (Inr (Success v'), s')"
  by (simp add: succeed_def)

text \<open>Every step that only returns successes is of the form \<open>succeed g\<close>.\<close>

lemma only_successes_succeed:
  assumes "\<And>v s. \<exists>v' s'. fn v s = (Inr (Success v'), s')"
  shows "\<exists>g. fn = succeed g"
proof
  let ?g = "\<lambda>v s. (val (projr (fst (fn v s))), snd (fn v s))"
  show "fn = succeed ?g"
  proof (intro ext)
    fix v s
    from assms obtain v' s' where "fn v s = (Inr (Success v'), s')"
      by blast
    then show "fn v s = succeed ?g v s"
      by (simp add: succeed_def)
  qed
qed

lemma reduce_chain_succeed:
  "reduce chain (map succeed gs) (Success v) s =
     (case thread gs v s of (v', s') \<Rightarrow> (Inr (Success v'), s'))"
proof (induction gs arbitrary: v s)
  case Nil
  show ?case by simp
next
  case (Cons g gs)
  obtain v' s' where g: "g v s = (v', s')"
    by (cases "g v s")
  then show ?case
    by (simp add: chain_simps succeed_Success [of g v s, OF g] Cons.IH)
qed

text \<open>
  Claim C8. Chain applied to \<open>Success v\<close> is the function applied to \<open>v\<close> itself, and a
  pipeline of steps that only return successes passes to each step the value of the
  success returned by the step before it: its result is the success of the value that
  \<open>thread\<close> computes.
\<close>

theorem success_threading:
  "chain (Success v) fn s = fn v s \<and>
   effectPipe (map succeed gs) start s =
     (case thread gs start s of (v', s') \<Rightarrow> (Inr (Success v'), s'))"
  by (simp add: chain_simps effectPipe_def reduce_chain_succeed)

section \<open>Interpreter\<close>

lemma runEffect_terminates:
  "finite_chain effect \<Longrightarrow> well_formed effect \<Longrightarrow>
   \<exists>out s'. runEffect effect s = Some (Inr out, s') \<and> is_outcome out"
proof (induction arbitrary: s rule: finite_chain.induct)
  case (fin_end effect)
  then have "is_outcome effect"
    by (simp add: well_formed_outcome)
  then show ?case
    by (cases effect) (simp_all add: is_outcome_def runEffect_simps)
next
  case (fin_Command n c)
  show ?case
  proof (cases rule: iteration_cases [of c s n])
    case (operation_throws e s1)
    then show ?thesis
      by (simp add: is_outcome_def)
  next
    case (continuation_throws result s1 e s2)
    then show ?thesis
      by (simp add: is_outcome_def)
  next
    case (continues result s1 effect' s2)
    have "well_formed effect'"
      using fin_Command.prems continues(2) by (rule well_formed_next)
    then show ?thesis
      using fin_Command.IH [OF continues(2), of s2] continues(3) by simp
  qed
qed

text \<open>Without \<open>finite_chain\<close> the loop need not end: on a command that returns itself,
  with an operation that always succeeds, the interpreter never returns.\<close>

lemma runEffect_not_forever:
  assumes ok: "\<And>s. \<exists>result s'. c s = (Inr result, s')"
    and run: "runEffect effect s = Some r"
  shows "effect \<noteq> forever c"
proof (rule runEffect.raw_induct [OF _ run, where P = "\<lambda>effect s r. effect \<noteq> forever c"], goal_cases)
  case (1 run effect s r)
  show ?case
  proof
    assume eq: "effect = forever c"
    obtain result s' where "c s = (Inr result, s')"
      using ok by blast
    with 1(2) eq have "run (forever c) s' = Some r"
      by (subst (asm) forever.code) simp
    with 1(1) show False
      by blast
  qed
qed

lemma runEffect_forever:
  "(\<And>s. \<exists>result s'. c s = (Inr result, s')) \<Longrightarrow> runEffect (forever c) s = None"
  using runEffect_not_forever [of c "forever c" s] by (cases "runEffect (forever c) s") auto

lemma well_formed_forever: "well_formed (forever c)"
proof (coinduction)
  case well_formed
  show ?case
    by (subst forever.code) auto
qed

text \<open>
  Claim C1. For every effect of the data model whose chain of commands is finite, the
  interpreter returns, and what it returns is a success or a failure, never a command.
  An effect that is a success or a failure already is returned as it is, and so is a
  failure that a continuation returns: it comes back as the value the continuation
  built, with the world the continuation left.
\<close>

theorem runEffect_terminal:
  "(well_formed effect \<and> finite_chain effect \<longrightarrow>
      (\<exists>out s'. runEffect effect s = Some (Inr out, s') \<and> is_outcome out)) \<and>
   runEffect (Success v) s = Some (Inr (Success v), s) \<and>
   runEffect (Failure x) s = Some (Inr (Failure x), s) \<and>
   (c s = (Inr result, s1) \<and> n result s1 = (Inr (Failure x), s2) \<longrightarrow>
      runEffect (Command c n) s = Some (Inr (Failure x), s2))"
proof -
  have "\<exists>out s'. runEffect effect s = Some (Inr out, s') \<and> is_outcome out"
    if "well_formed effect" "finite_chain effect"
    using runEffect_terminates [OF that(2) that(1), of s] by blast
  then show ?thesis
    by (simp add: runEffect_simps runEffect_Command)
qed

theorem runEffect_terminal_witness:
  "well_formed (findUserByEmail ''test@test.com'') \<and>
   finite_chain (findUserByEmail ''test@test.com'') \<and>
   (\<exists>out s'. runEffect (findUserByEmail ''test@test.com'') taken_db = Some (Inr out, s') \<and>
      is_outcome out) \<and>
   db_findUserByEmail ''test@test.com'' taken_db = (Inr (VUser registered), taken_db) \<and>
   ensureEmailIsAvailable (VUser registered) taken_db
     = (Inr (Failure (Err ''Email already in use.'')), taken_db) \<and>
   runEffect (Command (db_findUserByEmail ''test@test.com'') ensureEmailIsAvailable) taken_db
     = Some (Inr (Failure (Err ''Email already in use.'')), taken_db)"
  using runEffect_terminal
    [of "findUserByEmail ''test@test.com''" taken_db VNull "Err ''Email already in use.''"
        "db_findUserByEmail ''test@test.com''" "VUser registered" taken_db
        ensureEmailIsAvailable taken_db]
    well_formed_findUserByEmail [of "''test@test.com''"]
    finite_chain_findUserByEmail [of "''test@test.com''"]
  by (auto simp add: db_findUserByEmail_def ensureEmailIsAvailable_def taken_db_def)

text \<open>
  Claim C2. When the operation of a command throws, or the promise it returns rejects,
  with \<open>E\<close>, the interpreter returns \<open>Failure E\<close> with \<open>E\<close> itself as payload. The world
  is the one the operation left, whatever the continuation is: neither the continuation
  nor any later operation has run.
\<close>

theorem runEffect_operation_throws:
  "c s = (Inl E, s') \<Longrightarrow> runEffect (Command c n) s = Some (Inr (Failure E), s')"
  by (simp add: runEffect_Command)

theorem runEffect_operation_throws_witness:
  "rejects ''db down'' 0 = (Inl (Err ''db down''), 1) \<and>
   runEffect (Command (rejects ''db down'') spy) 0 = Some (Inr (Failure (Err ''db down'')), 1)"
  using runEffect_operation_throws [of "rejects ''db down''" 0 "Err ''db down''" 1 spy]
  by (simp add: rejects_def)

text \<open>
  Claim C3. When the operation succeeds with \<open>r\<close> and the continuation applied to \<open>r\<close>
  throws \<open>E\<close>, the interpreter returns \<open>Failure E\<close> as well: the \<^verbatim>\<open>try\<close> block holds
  the call of the operation and the call of the continuation.
\<close>

theorem runEffect_continuation_throws:
  "c s = (Inr r, s') \<Longrightarrow> n r s' = (Inl E, s'') \<Longrightarrow>
   runEffect (Command c n) s = Some (Inr (Failure E), s'')"
  by (simp add: runEffect_Command)

theorem runEffect_continuation_throws_witness:
  "resolves ''row'' 0 = (Inr ''row'', 1) \<and>
   (\<lambda>r k. (Inl (Err (''bad '' @ r)), k + 10)) ''row'' 1 = (Inl (Err ''bad row''), 11) \<and>
   runEffect (Command (resolves ''row'') (\<lambda>r k. (Inl (Err (''bad '' @ r)), k + 10))) 0
     = Some (Inr (Failure (Err ''bad row'')), 11)"
  using runEffect_continuation_throws
    [of "resolves ''row''" 0 "''row''" 1
        "\<lambda>r k. (Inl (Err (''bad '' @ r)), k + 10)" "Err ''bad row''" 11]
  by (simp add: resolves_def)

lemma runEffect_iterations_terminates:
  "finite_chain effect \<Longrightarrow> well_formed effect \<Longrightarrow>
   \<exists>out s' j. runEffect effect s = Some (Inr out, s') \<and>
     runEffect_iterations effect s k = Some (Inr out, s', k + j) \<and> is_outcome out"
proof (induction arbitrary: s k rule: finite_chain.induct)
  case (fin_end effect)
  then have "is_outcome effect"
    by (simp add: well_formed_outcome)
  then show ?case
    by (cases effect) (simp_all add: is_outcome_def runEffect_simps runEffect_iterations_simps)
next
  case (fin_Command n c)
  show ?case
  proof (cases rule: counted_iteration_cases [of c s n])
    case (operation_throws e s1)
    then show ?thesis
      by (intro exI [of _ "Failure e"] exI [of _ s1] exI [of _ 1]) (simp add: is_outcome_def)
  next
    case (continuation_throws result s1 e s2)
    then show ?thesis
      by (intro exI [of _ "Failure e"] exI [of _ s2] exI [of _ 1]) (simp add: is_outcome_def)
  next
    case (continues result s1 effect' s2)
    have "well_formed effect'"
      using fin_Command.prems continues(2) by (rule well_formed_next)
    then obtain out s' j where
      "runEffect effect' s2 = Some (Inr out, s')"
      "runEffect_iterations effect' s2 (Suc k) = Some (Inr out, s', Suc k + j)"
      "is_outcome out"
      using fin_Command.IH [OF continues(2), of s2 "Suc k"] by blast
    with continues show ?thesis
      by (intro exI [of _ out] exI [of _ s'] exI [of _ "Suc j"]) simp
  qed
qed

lemma spied_counts:
  "spied count effect \<Longrightarrow> runEffect_iterations effect s k = Some (r, s', k') \<Longrightarrow>
   count s' + k = count s + k'"
proof (induction arbitrary: s k rule: spied.induct)
  case (spied_Success v)
  then show ?case by (simp add: runEffect_iterations_simps)
next
  case (spied_Failure e)
  then show ?case by (simp add: runEffect_iterations_simps)
next
  case (spied_Command c n)
  show ?case
  proof (cases rule: counted_iteration_cases [of c s n])
    case (operation_throws e s1)
    with spied_Command.prems spied_Command.hyps(1) [of s] show ?thesis
      by simp
  next
    case (continuation_throws result s1 e s2)
    with spied_Command.prems spied_Command.hyps(1) [of s] spied_Command.hyps(2) [of result s1]
    show ?thesis
      by simp
  next
    case (continues result s1 effect' s2)
    then have "runEffect_iterations effect' s2 (Suc k) = Some (r, s', k')"
      using spied_Command.prems by simp
    then have "count s' + Suc k = count s2 + k'"
      by (rule spied_Command.IH [OF continues(2)])
    with continues spied_Command.hyps(1) [of s] spied_Command.hyps(2) [of result s1]
    show ?thesis
      by simp
  qed
qed

lemma spied_well_formed: "spied count effect \<Longrightarrow> well_formed effect"
  by (induction rule: spied.induct) (auto intro: well_formed.intros)

lemma spied_finite_chain: "spied count effect \<Longrightarrow> finite_chain effect"
  by (induction rule: spied.induct) (auto intro: finite_chain.intros)

lemma spied_two_commands: "spied (\<lambda>k. k) two_commands"
  unfolding two_commands_def
  by (rule spied_Command; simp add: resolves_def)
     (auto intro!: spied_Command spied_Success simp: resolves_def)

text \<open>
  Claim C9. For every finite chain of commands of the data model the interpreter
  returns, after some number \<open>k\<close> of iterations of its loop, and when a spy counts the
  invocations of the operations the count has grown by \<open>k\<close>: the iterations are as many
  as the commands that were executed. An iteration whose operation fails is the last:
  the run ends there with the world the operation left, so no later command is invoked.
\<close>

theorem runEffect_iterations_count:
  "(well_formed effect \<and> finite_chain effect \<longrightarrow>
      (\<exists>out s' k. runEffect effect s = Some (Inr out, s') \<and>
         runEffect_iterations effect s 0 = Some (Inr out, s', k) \<and>
         (spied count effect \<longrightarrow> count s' = count s + k))) \<and>
   (c s0 = (Inl E, s1) \<longrightarrow>
      runEffect_iterations (Command c n) s0 k0 = Some (Inr (Failure E), s1, Suc k0))"
proof (intro conjI impI)
  assume "well_formed effect \<and> finite_chain effect"
  then obtain out s' k where run:
    "runEffect effect s = Some (Inr out, s')"
    "runEffect_iterations effect s 0 = Some (Inr out, s', k)"
    using runEffect_iterations_terminates [of effect s 0] by auto
  have "count s' = count s + k" if "spied count effect"
    using spied_counts [OF that run(2)] by simp
  with run show "\<exists>out s' k. runEffect effect s = Some (Inr out, s') \<and>
         runEffect_iterations effect s 0 = Some (Inr out, s', k) \<and>
         (spied count effect \<longrightarrow> count s' = count s + k)"
    by blast
next
  assume "c s0 = (Inl E, s1)"
  then show "runEffect_iterations (Command c n) s0 k0 = Some (Inr (Failure E), s1, Suc k0)"
    by (simp add: runEffect_iterations_Command)
qed

theorem runEffect_iterations_count_witness:
  "well_formed two_commands \<and> finite_chain two_commands \<and> spied (\<lambda>k. k) two_commands \<and>
   (\<exists>out s' k. runEffect two_commands 0 = Some (Inr out, s') \<and>
      runEffect_iterations two_commands 0 0 = Some (Inr out, s', k) \<and> s' = 0 + k) \<and>
   rejects ''db down'' 1 = (Inl (Err ''db down''), 2) \<and>
   runEffect_iterations (Command (rejects ''db down'') spy) 1 1
     = Some (Inr (Failure (Err ''db down'')), 2, 2)"
  using runEffect_iterations_count
    [of two_commands 0 "\<lambda>k. k" "rejects ''db down''" 1 "Err ''db down''" 2 spy 1]
    spied_two_commands spied_well_formed [OF spied_two_commands]
    spied_finite_chain [OF spied_two_commands]
  by (auto simp add: rejects_def)

section \<open>Objects outside the data model\<close>

text \<open>
  A native promise that holds a command: the interpreter does not run the command, and
  its own promise is fulfilled with it.
\<close>

lemma runEffect_promise_of_commands:
  "runEffect promise_of_commands 0 = Some (Inr two_commands, 0)" "is_Command two_commands"
  by (simp_all add: promise_of_commands_def runEffect_Other async_return_thenable
        then_resolves_def two_commands_def async_return_simps)




section \<open>The tests of the repository\<close>

text \<open>
  \<^verbatim>\<open>should return Failure when e-mail is invalid\<close>: registering
  \<^verbatim>\<open>{ email: 'bad-email', password: '123' }\<close> gives
  \<^verbatim>\<open>Failure('Invalid email format.')\<close>, in every state of the database and without
  touching it.
\<close>

lemma test_invalid_email:
  "registerUser bad_input s = Some (Inr (Failure (Err ''Invalid email format.'')), s)"
  by (simp add: registerUser_def registerUserFlow_def effectPipe_def chain_simps
        validateRegistration_def bad_input_def runEffect_simps)

text \<open>
  \<^verbatim>\<open>should walk through the call tree\<close>: for a valid input the flow is a command
  whose operation is the lookup, and its continuation applied to \<^verbatim>\<open>null\<close> is a
  command whose operation is the save. Neither operation runs: the database is as
  before.
\<close>

lemma test_walk_call_tree:
  "\<exists>step1 step2.
     registerUserFlow good_input s = (Inr step1, s) \<and>
     is_Command step1 \<and> cmd step1 = db_findUserByEmail ''test@test.com'' \<and>
     nxt step1 VNull s = (Inr step2, s) \<and>
     is_Command step2 \<and>
     cmd step2 = db_saveUser \<lparr>email = ''test@test.com'', password = ''hashed_password123'',
                               user_id = None\<rparr>"
  by (simp add: registerUserFlow_def effectPipe_def chain_simps chain_Command_eq js_bind_def
        validateRegistration_def good_input_def findUserByEmail_def ensureEmailIsAvailable_def
        saveUser_def)

text \<open>
  The scenario of section 8 of the specification: on a database without the address the
  lookup resolves to \<^verbatim>\<open>null\<close>, the save resolves to the saved record, and the result
  is the success of that record.
\<close>

lemma scenario_registers:
  "registerUser good_input empty_db = Some (Inr (Success (VUser registered)),
     empty_db\<lparr>users := [''test@test.com'' \<mapsto> registered]\<rparr>)"
  by (simp add: registerUser_def registerUserFlow_def effectPipe_def chain_simps chain_Command_eq
        js_bind_def validateRegistration_def good_input_def findUserByEmail_def
        ensureEmailIsAvailable_def saveUser_def runEffect_Command runEffect_simps
        db_findUserByEmail_def db_saveUser_def Let_def empty_db_def registered_def)

lemma scenario_taken:
  "registerUser good_input taken_db = Some (Inr (Failure (Err ''Email already in use.'')), taken_db)"
  by (simp add: registerUser_def registerUserFlow_def effectPipe_def chain_simps chain_Command_eq
        js_bind_def validateRegistration_def good_input_def findUserByEmail_def
        ensureEmailIsAvailable_def saveUser_def runEffect_Command runEffect_simps
        db_findUserByEmail_def taken_db_def)

end
